theory Spec2Isabelle
  imports Main "HOL-Library.Signed_Division" "HOL-Library.Multiset"
begin

section \<open>The asynq processor and client options, embedded from the Go source\<close>

text \<open>
  The development follows \<^verbatim>\<open>processor.go\<close> (the processor: queue selection, worker
  outcome routing, shutdown, weight normalisation, execution contexts) and the client
  file (per-task options and their composition).

  Conventions of the embedding.
  \<^item> Go's \<^verbatim>\<open>int\<close> is 64 bits wide. Weights and retry counts are \<open>int\<close>; the only
    arithmetic on them is \<^verbatim>\<open>%\<close>, \<^verbatim>\<open>/\<close> and comparison, and the single quotient
    that wraps (\<open>-2^63 / -1\<close>) is written out in \<open>go_quo\<close>.
  \<^item> An \<^verbatim>\<open>error\<close> value is its message (\<^verbatim>\<open>Error()\<close>); \<^verbatim>\<open>nil\<close> is \<open>None\<close>.
  \<^item> A run-time panic is a value of type \<open>panic\<close>, returned on the left of a sum.
  \<^item> A Go map is a HOL map. A \<^verbatim>\<open>range\<close> loop over a map visits every entry once in
    an order the language leaves open: each such loop takes the order of the keys it
    visits as an argument, and \<open>range_order\<close> says that the argument is such an order.
  \<^item> Instants and durations are integers (nanoseconds); the zero \<^verbatim>\<open>time.Time\<close> is 0.
  \<^item> Calls on collaborators that are not part of the processor (broker, process state,
    cancelation registry, error handler, sync channel) are recorded as events, in the
    order the code makes them. Log calls are not recorded.
\<close>

subsection \<open>Basic types\<close>

datatype panic = IndexOutOfRange | DivideByZero | CloseOfClosedChannel | MakeChanSizeOutOfRange

type_synonym time = int
type_synonym duration = int
type_synonym error = string

definition Second :: duration where
  "Second = 1000000000"

text \<open>The fields of \<^verbatim>\<open>base.TaskMessage\<close> that the two files read or write; \<open>msg_ErrorMsg\<close>
  is the \<^verbatim>\<open>error_msg\<close> field of the data model, written by the broker.\<close>

record 'p TaskMessage =
  msg_ID :: string
  msg_Type :: string
  msg_Payload :: 'p
  msg_Queue :: string
  msg_Retry :: int
  msg_Retried :: int
  msg_ErrorMsg :: string
  msg_Timeout :: string
  msg_Deadline :: string

record 'p Task =
  task_Type :: string
  task_Payload :: 'p

definition NewTask :: "string \<Rightarrow> 'p \<Rightarrow> 'p Task" where
  "NewTask typename payload = \<lparr>task_Type = typename, task_Payload = payload\<rparr>"

subsection \<open>Maps and their range loops\<close>

definition range_order :: "'k list \<Rightarrow> ('k \<rightharpoonup> 'v) \<Rightarrow> bool" where
  "range_order ks m \<longleftrightarrow> distinct ks \<and> set ks = dom m"

definition range_entries :: "'k list \<Rightarrow> ('k \<rightharpoonup> 'v) \<Rightarrow> ('k \<times> 'v) list" where
  "range_entries ks m = List.map_filter (\<lambda>k. map_option (Pair k) (m k)) ks"

subsection \<open>Weight normalisation: \<^verbatim>\<open>gcd\<close> and \<^verbatim>\<open>normalizeQueueCfg\<close>\<close>

text \<open>Go's \<^verbatim>\<open>%\<close> and \<^verbatim>\<open>/\<close> truncate towards zero.\<close>

definition go_rem :: "int \<Rightarrow> int \<Rightarrow> int" where
  "go_rem x y = x smod y"

definition go_quo :: "int \<Rightarrow> int \<Rightarrow> int" where
  "go_quo x y = (if x = - (2 ^ 63) \<and> y = - 1 then x else x sdiv y)"

text \<open>The closure \<^verbatim>\<open>fn\<close> of \<^verbatim>\<open>gcd\<close>: \<^verbatim>\<open>for y > 0 { x, y = y, x%y }; return x\<close>.\<close>

function gcd_fn :: "int \<Rightarrow> int \<Rightarrow> int" where
  "gcd_fn x y = (if y > 0 then gcd_fn y (go_rem x y) else x)"
  by pat_completeness auto
termination
proof (relation "measure (\<lambda>(x, y). nat y)")
  show "wf (measure (\<lambda>(x, y). nat y))" by simp
next
  fix x y :: int
  assume y: "0 < y"
  have "go_rem x y < y"
  proof (cases "0 \<le> x")
    case True
    then show ?thesis using y by (simp add: go_rem_def signed_modulo_int_def sgn_if)
  next
    case False
    have "0 \<le> \<bar>x\<bar> mod \<bar>y\<bar>" using y by simp
    then have "go_rem x y \<le> 0"
      using False by (simp add: go_rem_def signed_modulo_int_def sgn_if)
    then show ?thesis using y by simp
  qed
  then show "((y, go_rem x y), (x, y)) \<in> measure (\<lambda>(x, y). nat y)"
    using y by simp
qed

declare gcd_fn.simps [simp del]

text \<open>The loop \<^verbatim>\<open>for i := 0; i < len(xs); i++\<close> of \<^verbatim>\<open>gcd\<close>, with its early return.\<close>

fun gcd_loop :: "int list \<Rightarrow> int \<Rightarrow> int" where
  "gcd_loop [] res = res"
| "gcd_loop (x # xs) res =
     (let res' = gcd_fn x res in if res' = 1 then 1 else gcd_loop xs res')"

text \<open>\<^verbatim>\<open>gcd(xs ...int)\<close>: reading \<^verbatim>\<open>xs[0]\<close> of an empty slice panics.\<close>

definition gcd_ints :: "int list \<Rightarrow> panic + int" where
  "gcd_ints xs = (case xs of [] \<Rightarrow> Inl IndexOutOfRange | x0 # _ \<Rightarrow> Inr (gcd_loop xs x0))"

text \<open>The second loop of \<^verbatim>\<open>normalizeQueueCfg\<close>: \<^verbatim>\<open>res[q] = x / d\<close>; dividing by zero
  panics.\<close>

fun div_loop ::
  "(string \<times> int) list \<Rightarrow> int \<Rightarrow> (string \<rightharpoonup> int) \<Rightarrow> panic + (string \<rightharpoonup> int)" where
  "div_loop [] d res = Inr res"
| "div_loop ((q, x) # es) d res =
     (if d = 0 then Inl DivideByZero else div_loop es d (res(q \<mapsto> go_quo x d)))"

text \<open>\<open>ks1\<close> and \<open>ks2\<close> are the orders in which the two range loops visit the map.\<close>

definition normalizeQueueCfg ::
  "string list \<Rightarrow> string list \<Rightarrow> (string \<rightharpoonup> int) \<Rightarrow> panic + (string \<rightharpoonup> int)" where
  "normalizeQueueCfg ks1 ks2 queueCfg =
     (let xs = map snd (range_entries ks1 queueCfg) in
      case gcd_ints xs of
        Inl e \<Rightarrow> Inl e
      | Inr d \<Rightarrow> div_loop (range_entries ks2 queueCfg) d Map.empty)"

subsection \<open>The processor\<close>

text \<open>
  The fields of \<^verbatim>\<open>processor\<close> that the modelled methods use. Channels are kept by their
  state: \<open>abort\<close> and \<open>quit\<close> say whether the channel is closed, \<open>done_sent\<close> counts the
  values sent on \<^verbatim>\<open>done\<close>, \<open>once\<close> says whether \<^verbatim>\<open>sync.Once\<close> has fired. \<open>sema\<close>
  counts the tokens that \<^verbatim>\<open>terminate\<close> has put into the semaphore (nothing takes those
  out again); a token put by \<^verbatim>\<open>exec\<close> for a worker is taken out when the worker
  returns, which every worker is taken to do eventually. \<open>timers\<close> lists the
  \<^verbatim>\<open>time.AfterFunc\<close> timers armed so far, each of which closes \<^verbatim>\<open>quit\<close> when it fires.
  \<open>cancel_sweeps\<close> counts the passes over \<^verbatim>\<open>cancelations.GetAll()\<close> and \<open>restores\<close> the
  calls of \<^verbatim>\<open>RequeueAll\<close>.
\<close>

record 'p processor =
  queueConfig :: "string \<rightharpoonup> int"
  orderedQueues :: "string list"
  retryDelayFunc :: "int \<Rightarrow> error \<Rightarrow> 'p Task \<Rightarrow> duration"
  errHandler :: bool
  sema :: nat
  sema_cap :: nat
  done_sent :: nat
  once :: bool
  abort :: bool
  quit :: bool
  timers :: "duration list"
  cancel_sweeps :: nat
  restores :: nat

text \<open>What \<^verbatim>\<open>ps.Get()\<close> returns, as far as \<^verbatim>\<open>newProcessor\<close> reads it.\<close>

record ProcessInfo =
  Queues :: "string \<rightharpoonup> int"
  StrictPriority :: bool
  Concurrency :: int

text \<open>\<^verbatim>\<open>sortByPriority\<close>. The library's \<^verbatim>\<open>sort.Sort\<close> is an argument; it is given the
  order \<^verbatim>\<open>sort.Reverse(byPriority(queues))\<close> defines. A nil slice is the empty list.\<close>

definition sortByPriority ::
  "((string \<times> int \<Rightarrow> string \<times> int \<Rightarrow> bool) \<Rightarrow> (string \<times> int) list \<Rightarrow> (string \<times> int) list) \<Rightarrow>
   string list \<Rightarrow> (string \<rightharpoonup> int) \<Rightarrow> string list" where
  "sortByPriority sort_Sort ks qcfg =
     (let queues = range_entries ks qcfg;
          sorted = sort_Sort (\<lambda>a b. snd b < snd a) queues
      in map fst sorted)"

definition newProcessor ::
  "((string \<times> int \<Rightarrow> string \<times> int \<Rightarrow> bool) \<Rightarrow> (string \<times> int) list \<Rightarrow> (string \<times> int) list) \<Rightarrow>
   string list \<Rightarrow> string list \<Rightarrow> string list \<Rightarrow>
   ProcessInfo \<Rightarrow> (int \<Rightarrow> error \<Rightarrow> 'p Task \<Rightarrow> duration) \<Rightarrow> bool \<Rightarrow> panic + 'p processor" where
  "newProcessor sort_Sort ks1 ks2 ks3 info fn eh =
     (case normalizeQueueCfg ks1 ks2 (Queues info) of
        Inl e \<Rightarrow> Inl e
      | Inr qcfg \<Rightarrow>
          (let ordered = (if StrictPriority info then sortByPriority sort_Sort ks3 qcfg else [])
           in if Concurrency info < 0 then Inl MakeChanSizeOutOfRange
              else Inr \<lparr>queueConfig = qcfg, orderedQueues = ordered, retryDelayFunc = fn,
                        errHandler = eh, sema = 0, sema_cap = nat (Concurrency info),
                        done_sent = 0, once = False, abort = False, quit = False,
                        timers = [], cancel_sweeps = 0, restores = 0\<rparr>))"

subsection \<open>Queue selection: \<^verbatim>\<open>queues\<close>, \<^verbatim>\<open>uniq\<close> and the shuffle\<close>

text \<open>
  \<^verbatim>\<open>rand.Shuffle(n, swap)\<close> of the standard library runs \<^verbatim>\<open>swap(i, j)\<close> for \<open>i\<close> from
  \<open>n - 1\<close> down to 1 with a random \<open>j\<close> in \<open>0..i\<close>. The generator is the argument
  \<open>rnd\<close>: \<open>rnd i\<close> is the number drawn at step \<open>i\<close>, reduced to \<open>0..i\<close>. The swap is
  the closure of \<^verbatim>\<open>queues\<close>: \<^verbatim>\<open>names[i], names[j] = names[j], names[i]\<close>.
\<close>

fun Shuffle_loop :: "(nat \<Rightarrow> nat) \<Rightarrow> nat \<Rightarrow> 'a list \<Rightarrow> 'a list" where
  "Shuffle_loop rnd 0 names = names"
| "Shuffle_loop rnd (Suc i) names =
     (let j = rnd (Suc i) mod Suc (Suc i)
      in Shuffle_loop rnd i (names[Suc i := names ! j, j := names ! Suc i]))"

definition Shuffle :: "(nat \<Rightarrow> nat) \<Rightarrow> 'a list \<Rightarrow> 'a list" where
  "Shuffle rnd names = Shuffle_loop rnd (length names - 1) names"

text \<open>The loop of \<^verbatim>\<open>uniq\<close>, with the set \<open>seen\<close> and the slice \<open>res\<close> as accumulators;
  the \<^verbatim>\<open>break\<close> is tested after every element.\<close>

fun uniq_loop :: "string list \<Rightarrow> nat \<Rightarrow> string set \<Rightarrow> string list \<Rightarrow> string list" where
  "uniq_loop [] l seen res = res"
| "uniq_loop (s # names) l seen res =
     (let seen' = (if s \<notin> seen then insert s seen else seen);
          res' = (if s \<notin> seen then res @ [s] else res)
      in if length res' = l then res' else uniq_loop names l seen' res')"

definition uniq :: "string list \<Rightarrow> nat \<Rightarrow> string list" where
  "uniq names l = uniq_loop names l {} []"

text \<open>The weighted list of \<^verbatim>\<open>queues\<close>: every name appended \<^verbatim>\<open>priority\<close> times.\<close>

definition weighted_names :: "(string \<times> int) list \<Rightarrow> string list" where
  "weighted_names es = concat (map (\<lambda>(qname, priority). replicate (nat priority) qname) es)"

text \<open>\<^verbatim>\<open>queues\<close>. \<open>ks\<close> is the order of the range loop that runs (the first one when the
  map has one entry, the second one otherwise); \<open>rnd\<close> is the generator seeded from the
  clock.\<close>

definition queues :: "(nat \<Rightarrow> nat) \<Rightarrow> string list \<Rightarrow> 'p processor \<Rightarrow> string list" where
  "queues rnd ks p =
     (case (if card (dom (queueConfig p)) = 1 then range_entries ks (queueConfig p) else []) of
        (qname, _) # _ \<Rightarrow> [qname]
      | [] \<Rightarrow>
          if orderedQueues p \<noteq> [] then orderedQueues p
          else uniq (Shuffle rnd (weighted_names (range_entries ks (queueConfig p))))
                 (card (dom (queueConfig p))))"

text \<open>Deduplication that keeps the first occurrence of every element, as the
  specification words it; \<open>uniq\<close> is compared with it.\<close>

fun dedup_first :: "'a list \<Rightarrow> 'a list" where
  "dedup_first [] = []"
| "dedup_first (x # xs) = x # dedup_first (filter (\<lambda>y. y \<noteq> x) xs)"

subsection \<open>Shutdown: \<^verbatim>\<open>stop\<close> and \<^verbatim>\<open>terminate\<close>\<close>

text \<open>A call returns, blocks for ever, or panics.\<close>

datatype 'a result = Returns 'a | Blocks 'a | Panics panic

text \<open>\<^verbatim>\<open>stop\<close>: the body runs under \<^verbatim>\<open>p.once.Do\<close>. Closing a closed channel panics. The
  value sent on \<^verbatim>\<open>done\<close> is received by the dispatch loop.\<close>

definition stop :: "'p processor \<Rightarrow> 'p processor result" where
  "stop p =
     (if once p then Returns p
      else if abort p then Panics CloseOfClosedChannel
      else Returns (p\<lparr>once := True, abort := True, done_sent := done_sent p + 1\<rparr>))"

text \<open>The loop \<^verbatim>\<open>for i := 0; i < cap(p.sema); i++ { p.sema <- struct{}{} }\<close>: a send on a
  full buffered channel that no one receives from blocks for ever.\<close>

fun acquire :: "nat \<Rightarrow> 'p processor \<Rightarrow> 'p processor result" where
  "acquire 0 p = Returns p"
| "acquire (Suc n) p =
     (if sema p < sema_cap p then acquire n (p\<lparr>sema := sema p + 1\<rparr>) else Blocks p)"

definition restore :: "'p processor \<Rightarrow> 'p processor" where
  "restore p = p\<lparr>restores := restores p + 1\<rparr>"

definition terminate :: "'p processor \<Rightarrow> 'p processor result" where
  "terminate p =
     (case stop p of
        Returns p1 \<Rightarrow>
          (let timeout = 8 * Second;
               p2 = p1\<lparr>timers := timers p1 @ [timeout]\<rparr>;
               p3 = p2\<lparr>cancel_sweeps := cancel_sweeps p2 + 1\<rparr>
           in case acquire (sema_cap p3) p3 of
                Returns p4 \<Rightarrow> Returns (restore p4)
              | r \<Rightarrow> r)
      | r \<Rightarrow> r)"

text \<open>A timer armed by \<^verbatim>\<open>terminate\<close> fires: \<^verbatim>\<open>close(p.quit)\<close>.\<close>

definition fire_timer :: "'p processor \<Rightarrow> 'p processor result" where
  "fire_timer p = (if quit p then Panics CloseOfClosedChannel else Returns (p\<lparr>quit := True\<rparr>))"

text \<open>Calls made one after the other; a call that blocks or panics ends the sequence.\<close>

datatype shutdown_call = Stop | Terminate

fun run_calls :: "shutdown_call list \<Rightarrow> 'p processor \<Rightarrow> 'p processor result" where
  "run_calls [] p = Returns p"
| "run_calls (c # cs) p =
     (case (case c of Stop \<Rightarrow> stop p | Terminate \<Rightarrow> terminate p) of
        Returns p' \<Rightarrow> run_calls cs p'
      | r \<Rightarrow> r)"

text \<open>Modelled from the spec: the server configuration of section 6 with its
  \<^verbatim>\<open>ShutdownTimeout\<close> option, and the way it reaches the processor; the file that
  declares the configuration is not among the sources. \<open>process_info\<close> hands on the
  three options \<^verbatim>\<open>newProcessor\<close> reads; \<open>drain_window\<close> is the graceful drain window the
  specification gives: the configured value, 8 seconds when none is configured.\<close>

record Config =
  cfg_Concurrency :: int
  cfg_Queues :: "string \<rightharpoonup> int"
  cfg_StrictPriority :: bool
  cfg_ShutdownTimeout :: "duration option"

definition process_info :: "Config \<Rightarrow> ProcessInfo" where
  "process_info c =
     \<lparr>Queues = cfg_Queues c, StrictPriority = cfg_StrictPriority c,
      Concurrency = cfg_Concurrency c\<rparr>"

definition drain_window :: "Config \<Rightarrow> duration" where
  "drain_window c = (case cfg_ShutdownTimeout c of None \<Rightarrow> 8 * Second | Some d \<Rightarrow> d)"

subsection \<open>The worker goroutine of \<^verbatim>\<open>exec\<close>\<close>

text \<open>The calls on the broker, and the events a worker produces.\<close>

datatype 'p rdb_call =
    Done "'p TaskMessage"
  | Retry "'p TaskMessage" time string
  | Kill "'p TaskMessage" string
  | Requeue "'p TaskMessage"

datatype 'p event =
    Rdb "'p rdb_call"
  | SyncRequest "'p rdb_call"
  | HandleError "'p Task" error int int
  | CancelationsAdd string
  | DeleteWorkerStats "'p TaskMessage"
  | ReleaseToken

text \<open>\<^verbatim>\<open>markAsDone\<close>, \<^verbatim>\<open>retry\<close>, \<^verbatim>\<open>kill\<close> and \<^verbatim>\<open>requeue\<close>. \<open>rdb_err\<close> is the error the
  broker returns for a call (\<open>None\<close> for \<^verbatim>\<open>nil\<close>); on an error the first three send a
  closure that repeats the call on \<^verbatim>\<open>syncRequestCh\<close>. \<open>now\<close> is \<^verbatim>\<open>time.Now()\<close>.\<close>

definition markAsDone :: "('p rdb_call \<Rightarrow> error option) \<Rightarrow> 'p TaskMessage \<Rightarrow> 'p event list" where
  "markAsDone rdb_err msg =
     Rdb (Done msg) # (if rdb_err (Done msg) \<noteq> None then [SyncRequest (Done msg)] else [])"

definition retry ::
  "'p processor \<Rightarrow> ('p rdb_call \<Rightarrow> error option) \<Rightarrow> time \<Rightarrow> 'p TaskMessage \<Rightarrow> error \<Rightarrow>
   'p event list" where
  "retry p rdb_err now msg e =
     (let d = retryDelayFunc p (msg_Retried msg) e (NewTask (msg_Type msg) (msg_Payload msg));
          retryAt = now + d
      in Rdb (Retry msg retryAt e) #
         (if rdb_err (Retry msg retryAt e) \<noteq> None then [SyncRequest (Retry msg retryAt e)] else []))"

definition kill :: "('p rdb_call \<Rightarrow> error option) \<Rightarrow> 'p TaskMessage \<Rightarrow> error \<Rightarrow> 'p event list" where
  "kill rdb_err msg e =
     Rdb (Kill msg e) # (if rdb_err (Kill msg e) \<noteq> None then [SyncRequest (Kill msg e)] else [])"

definition requeue :: "'p TaskMessage \<Rightarrow> 'p event list" where
  "requeue msg = [Rdb (Requeue msg)]"

text \<open>The case of the \<^verbatim>\<open>select\<close> in the worker that fires: \<^verbatim>\<open>quit\<close> is closed, or the
  handler's result arrives on \<^verbatim>\<open>resCh\<close>. When both are ready Go picks either.\<close>

datatype worker_select = QuitClosed | ResCh "error option"

text \<open>The goroutine started by \<^verbatim>\<open>exec\<close> after the token is acquired, with the deferred
  function run last. (The inner goroutine, which runs \<^verbatim>\<open>perform\<close> and then removes the
  cancel function from the registry, makes no call on the broker.)\<close>

definition worker ::
  "'p processor \<Rightarrow> ('p rdb_call \<Rightarrow> error option) \<Rightarrow> time \<Rightarrow> 'p TaskMessage \<Rightarrow> worker_select \<Rightarrow>
   'p event list" where
  "worker p rdb_err now msg sel =
     (let task = NewTask (msg_Type msg) (msg_Payload msg) in
      CancelationsAdd (msg_ID msg) #
      (case sel of
         QuitClosed \<Rightarrow> []
       | ResCh resErr \<Rightarrow>
           (case resErr of
              Some e \<Rightarrow>
                (if errHandler p then [HandleError task e (msg_Retried msg) (msg_Retry msg)] else []) @
                (if msg_Retried msg \<ge> msg_Retry msg then kill rdb_err msg e
                 else retry p rdb_err now msg e)
            | None \<Rightarrow> markAsDone rdb_err msg)) @
      [DeleteWorkerStats msg, ReleaseToken])"

definition rdb_calls :: "'p event list \<Rightarrow> 'p rdb_call list" where
  "rdb_calls evs = concat (map (\<lambda>ev. case ev of Rdb c \<Rightarrow> [c] | _ \<Rightarrow> []) evs)"

fun is_broker_event :: "'p event \<Rightarrow> bool" where
  "is_broker_event (Rdb c) = True"
| "is_broker_event (SyncRequest c) = True"
| "is_broker_event ev = False"

text \<open>Modelled from the spec: the effect of the broker operations \<^verbatim>\<open>Done\<close>, \<^verbatim>\<open>Retry\<close>,
  \<^verbatim>\<open>Kill\<close> and \<^verbatim>\<open>Requeue\<close> of section 4.2 (package \<^verbatim>\<open>rdb\<close> is not among the sources) on
  the message they are called with, which is in the in-progress set: the stored message
  and the broker-side set that holds it afterwards. \<^verbatim>\<open>Retry\<close> increments \<^verbatim>\<open>retried\<close>
  and writes \<^verbatim>\<open>error_msg\<close>; \<^verbatim>\<open>Kill\<close> writes \<^verbatim>\<open>error_msg\<close>.\<close>

datatype place = Pending | InProgress | RetrySet time | DeadSet | Removed

fun rdb_effect :: "'p rdb_call \<Rightarrow> 'p TaskMessage \<times> place" where
  "rdb_effect (Done msg) = (msg, Removed)"
| "rdb_effect (Retry msg retry_at err_str) =
     (msg\<lparr>msg_Retried := msg_Retried msg + 1, msg_ErrorMsg := err_str\<rparr>, RetrySet retry_at)"
| "rdb_effect (Kill msg err_str) = (msg\<lparr>msg_ErrorMsg := err_str\<rparr>, DeadSet)"
| "rdb_effect (Requeue msg) = (msg, Pending)"

text \<open>A message fails once: it is delivered to a worker (from its pending queue, or
  from the retry set once the scheduler has promoted it), the handler returns the error
  \<open>e\<close> at time \<open>now\<close>, and the broker carries out the calls of the worker, all of which
  succeed. A message in the dead set, or removed, is not delivered again.\<close>

definition fail_once ::
  "'p processor \<Rightarrow> time \<times> error \<Rightarrow> 'p TaskMessage \<times> place \<Rightarrow> 'p TaskMessage \<times> place" where
  "fail_once p ne st =
     (case st of (msg, pl) \<Rightarrow>
        if pl = DeadSet \<or> pl = Removed then st
        else fold (\<lambda>c _. rdb_effect c)
               (rdb_calls (worker p (\<lambda>_. None) (fst ne) msg (ResCh (Some (snd ne)))))
               (msg, InProgress))"

definition failures ::
  "'p processor \<Rightarrow> (time \<times> error) list \<Rightarrow> 'p TaskMessage \<times> place \<Rightarrow> 'p TaskMessage \<times> place" where
  "failures p fs st = fold (fail_once p) fs st"

subsection \<open>Execution contexts: \<^verbatim>\<open>createContext\<close>\<close>

text \<open>
  The contexts of the standard library's package \<^verbatim>\<open>context\<close>, by its documented
  behaviour. \<^verbatim>\<open>WithDeadline(parent, d)\<close> returns \<^verbatim>\<open>WithCancel(parent)\<close> when the parent's
  deadline is already before \<open>d\<close>, and a timer context otherwise;
  \<^verbatim>\<open>WithTimeout(parent, t)\<close> is \<^verbatim>\<open>WithDeadline(parent, time.Now().Add(t))\<close>. A cancel
  function is kept as the context it cancels (\<open>None\<close> for a nil function). A context is
  cancelled when its own timer fires and when its parent is cancelled: \<open>expired c t\<close>
  says that \<open>c\<close> is cancelled at time \<open>t\<close> without any cancel function being called.
\<close>

datatype go_context = Background | cancelCtx go_context | timerCtx go_context time

fun ctx_Deadline :: "go_context \<Rightarrow> time option" where
  "ctx_Deadline Background = None"
| "ctx_Deadline (cancelCtx parent) = ctx_Deadline parent"
| "ctx_Deadline (timerCtx parent d) = Some d"

fun expired :: "go_context \<Rightarrow> time \<Rightarrow> bool" where
  "expired Background t = False"
| "expired (cancelCtx parent) t = expired parent t"
| "expired (timerCtx parent d) t = (d \<le> t \<or> expired parent t)"

definition WithCancel :: "go_context \<Rightarrow> go_context \<times> go_context option" where
  "WithCancel parent = (cancelCtx parent, Some (cancelCtx parent))"

definition WithDeadline :: "go_context \<Rightarrow> time \<Rightarrow> go_context \<times> go_context option" where
  "WithDeadline parent d =
     (case ctx_Deadline parent of
        Some cur \<Rightarrow> if cur < d then WithCancel parent
                    else (timerCtx parent d, Some (timerCtx parent d))
      | None \<Rightarrow> (timerCtx parent d, Some (timerCtx parent d)))"

definition WithTimeout :: "time \<Rightarrow> go_context \<Rightarrow> duration \<Rightarrow> go_context \<times> go_context option" where
  "WithTimeout now parent timeout = WithDeadline parent (now + timeout)"

text \<open>\<^verbatim>\<open>createContext\<close>. \<open>ParseDuration\<close> and \<open>Parse\<close> are \<^verbatim>\<open>time.ParseDuration\<close> and
  \<^verbatim>\<open>time.Parse(time.RFC3339, _)\<close> (\<open>None\<close> when they return an error); \<open>now\<close> is the clock
  read by \<^verbatim>\<open>WithTimeout\<close>.\<close>

definition createContext ::
  "(string \<Rightarrow> duration option) \<Rightarrow> (string \<Rightarrow> time option) \<Rightarrow> time \<Rightarrow> 'p TaskMessage \<Rightarrow>
   go_context \<times> go_context option" where
  "createContext ParseDuration Parse now msg =
     (let c0 = (Background, None);
          c1 = (case ParseDuration (msg_Timeout msg) of
                  Some timeout \<Rightarrow> if timeout \<noteq> 0 then WithTimeout now (fst c0) timeout else c0
                | None \<Rightarrow> c0);
          c2 = (case Parse (msg_Deadline msg) of
                  Some deadline \<Rightarrow> if deadline \<noteq> 0 then WithDeadline (fst c1) deadline else c1
                | None \<Rightarrow> c1)
      in if snd c2 = None then WithCancel (fst c2) else c2)"

subsection \<open>\<^verbatim>\<open>perform\<close>\<close>

text \<open>
  A call of the handler returns an error value or panics with a value of the empty
  interface, which may be nil (\<^verbatim>\<open>panic(nil)\<close>). \<open>recover\<close> is what the deferred function
  reads: nil when the handler returned, the panic value otherwise. \<open>fmt_v\<close> is the
  \<^verbatim>\<open>%v\<close> formatting of the standard library.
\<close>

datatype 'v handler_result = Returned "error option" | Panicked "'v option"

definition recover :: "'v handler_result \<Rightarrow> 'v option" where
  "recover r = (case r of Returned _ \<Rightarrow> None | Panicked x \<Rightarrow> x)"

definition perform ::
  "('v \<Rightarrow> string) \<Rightarrow> 'c \<Rightarrow> 't \<Rightarrow> ('c \<Rightarrow> 't \<Rightarrow> 'v handler_result) \<Rightarrow> error option" where
  "perform fmt_v ctx task h =
     (let r = h ctx task;
          err = (case r of Returned e \<Rightarrow> e | Panicked _ \<Rightarrow> None)
      in case recover r of
           Some x \<Rightarrow> Some (''panic: '' @ fmt_v x)
         | None \<Rightarrow> err)"

subsection \<open>Client options\<close>

text \<open>The option values (\<^verbatim>\<open>Option\<close> is the empty interface: \<open>otherOption\<close> stands for a
  value of any other type) and the struct \<^verbatim>\<open>option\<close>.\<close>

datatype ClientOption =
    retryOption int
  | queueOption string
  | timeoutOption duration
  | deadlineOption time
  | otherOption

record option_struct =
  opt_retry :: int
  opt_queue :: string
  opt_timeout :: duration
  opt_deadline :: time

definition MaxRetry :: "int \<Rightarrow> ClientOption" where
  "MaxRetry n = retryOption (if n < 0 then 0 else n)"

text \<open>\<open>ToLower\<close> is \<^verbatim>\<open>strings.ToLower\<close> of the standard library.\<close>

definition Queue :: "(string \<Rightarrow> string) \<Rightarrow> string \<Rightarrow> ClientOption" where
  "Queue ToLower name = queueOption (ToLower name)"

definition Timeout :: "duration \<Rightarrow> ClientOption" where
  "Timeout d = timeoutOption d"

definition Deadline :: "time \<Rightarrow> ClientOption" where
  "Deadline t = deadlineOption t"

definition defaultMaxRetry :: int where
  "defaultMaxRetry = 25"

fun apply_option :: "ClientOption \<Rightarrow> option_struct \<Rightarrow> option_struct" where
  "apply_option (retryOption n) res = res\<lparr>opt_retry := n\<rparr>"
| "apply_option (queueOption q) res = res\<lparr>opt_queue := q\<rparr>"
| "apply_option (timeoutOption d) res = res\<lparr>opt_timeout := d\<rparr>"
| "apply_option (deadlineOption t) res = res\<lparr>opt_deadline := t\<rparr>"
| "apply_option otherOption res = res"

text \<open>\<^verbatim>\<open>composeOptions\<close>; \<open>DefaultQueueName\<close> is the constant of package \<^verbatim>\<open>base\<close>.\<close>

definition composeOptions :: "string \<Rightarrow> ClientOption list \<Rightarrow> option_struct" where
  "composeOptions DefaultQueueName opts =
     fold apply_option opts
       \<lparr>opt_retry = defaultMaxRetry, opt_queue = DefaultQueueName, opt_timeout = 0,
        opt_deadline = 0\<rparr>"

text \<open>The message \<^verbatim>\<open>EnqueueAt\<close> builds. \<open>new_id\<close> is the value of \<^verbatim>\<open>xid.New()\<close>;
  \<open>dur_String\<close> and \<open>time_Format\<close> are \<^verbatim>\<open>Duration.String\<close> and
  \<^verbatim>\<open>Time.Format(time.RFC3339)\<close>. The fields the literal leaves out are zero.\<close>

definition EnqueueAt_message ::
  "string \<Rightarrow> string \<Rightarrow> (duration \<Rightarrow> string) \<Rightarrow> (time \<Rightarrow> string) \<Rightarrow> 'p Task \<Rightarrow>
   ClientOption list \<Rightarrow> 'p TaskMessage" where
  "EnqueueAt_message DefaultQueueName new_id dur_String time_Format task opts =
     (let opt = composeOptions DefaultQueueName opts
      in \<lparr>msg_ID = new_id, msg_Type = task_Type task, msg_Payload = task_Payload task,
          msg_Queue = opt_queue opt, msg_Retry = opt_retry opt, msg_Retried = 0,
          msg_ErrorMsg = [], msg_Timeout = dur_String (opt_timeout opt),
          msg_Deadline = time_Format (opt_deadline opt)\<rparr>)"

fun is_retryOption :: "ClientOption \<Rightarrow> bool" where
  "is_retryOption (retryOption n) = True"
| "is_retryOption opt = False"

fun is_queueOption :: "ClientOption \<Rightarrow> bool" where
  "is_queueOption (queueOption q) = True"
| "is_queueOption opt = False"

section \<open>Weight normalisation\<close>

lemma go_rem_nonneg: "0 \<le> x \<Longrightarrow> 0 < y \<Longrightarrow> go_rem x y = x mod y"
  by (simp add: go_rem_def signed_modulo_int_def sgn_if)

lemma gcd_fn_gcd: "0 \<le> x \<Longrightarrow> 0 \<le> y \<Longrightarrow> gcd_fn x y = gcd x y"
proof (induction x y rule: gcd_fn.induct)
  case (1 x y)
  show ?case
  proof (cases "0 < y")
    case True
    then have "gcd_fn x y = gcd_fn y (go_rem x y)" by (subst gcd_fn.simps) simp
    also have "\<dots> = gcd y (go_rem x y)"
      using 1 True by (simp add: go_rem_nonneg)
    also have "\<dots> = gcd x y"
      using 1 True by (simp add: go_rem_nonneg gcd.commute gcd_red_int[symmetric])
    finally show ?thesis .
  next
    case False
    with 1 show ?thesis by (subst gcd_fn.simps) simp
  qed
qed

lemma gcd_loop_Gcd:
  "\<forall>x\<in>set xs. 0 < x \<Longrightarrow> 0 < res \<Longrightarrow> gcd_loop xs res = gcd (Gcd (set xs)) res"
proof (induction xs arbitrary: res)
  case Nil
  then show ?case by simp
next
  case (Cons x xs)
  have g: "gcd_fn x res = gcd x res" using Cons.prems by (simp add: gcd_fn_gcd)
  have pos: "0 < gcd x res" using Cons.prems by (simp add: gcd_pos_int)
  have assoc: "gcd (Gcd (set (x # xs))) res = gcd (Gcd (set xs)) (gcd x res)"
    by (simp add: gcd.assoc gcd.left_commute gcd.commute)
  show ?case
  proof (cases "gcd x res = 1")
    case True
    then show ?thesis using g assoc by simp
  next
    case False
    then show ?thesis using g assoc pos Cons.IH[of "gcd x res"] Cons.prems by simp
  qed
qed

lemma gcd_ints_Gcd:
  assumes "xs \<noteq> []" "\<forall>x\<in>set xs. 0 < x"
  shows "gcd_ints xs = Inr (Gcd (set xs))"
proof -
  obtain x0 ys where xs: "xs = x0 # ys" using assms(1) by (cases xs) auto
  have "gcd_loop xs x0 = gcd (Gcd (set xs)) x0"
    using assms xs by (intro gcd_loop_Gcd) auto
  also have "\<dots> = Gcd (set xs)"
    using xs by (simp add: gcd.assoc[symmetric])
  finally show ?thesis by (simp add: gcd_ints_def xs)
qed

lemma range_entries_Nil [simp]: "range_entries [] m = []"
  by (simp add: range_entries_def map_filter_simps)

lemma range_entries_Cons:
  "range_entries (k # ks) m =
     (case m k of None \<Rightarrow> range_entries ks m | Some v \<Rightarrow> (k, v) # range_entries ks m)"
  by (simp add: range_entries_def map_filter_simps split: option.splits)

lemma range_entries_map:
  "set ks \<subseteq> dom m \<Longrightarrow> range_entries ks m = map (\<lambda>k. (k, the (m k))) ks"
  by (induction ks) (auto simp: range_entries_Cons split: option.splits)

lemma range_entries_keys: "range_order ks m \<Longrightarrow> map fst (range_entries ks m) = ks"
  by (simp add: range_order_def range_entries_map comp_def)

lemma range_entries_values: "range_order ks m \<Longrightarrow> set (map snd (range_entries ks m)) = ran m"
  by (auto simp: range_order_def range_entries_map ran_def dom_def image_iff) force+

lemma range_entries_map_of: "range_order ks m \<Longrightarrow> map_of (range_entries ks m) = m"
proof (rule ext)
  fix q
  assume ro: "range_order ks m"
  then have e: "range_entries ks m = map (\<lambda>k. (k, the (m k))) ks"
    by (simp add: range_order_def range_entries_map)
  show "map_of (range_entries ks m) q = m q"
  proof (cases "q \<in> set ks")
    case True
    then have "map_of (map (\<lambda>k. (k, the (m k))) ks) q = Some (the (m q))"
      by (simp add: map_of_map_restrict)
    moreover have "q \<in> dom m" using ro True by (simp add: range_order_def)
    ultimately show ?thesis using e by auto
  next
    case False
    then have "map_of (map (\<lambda>k. (k, the (m k))) ks) q = None"
      by (simp add: map_of_map_restrict)
    moreover have "m q = None" using ro False by (auto simp: range_order_def)
    ultimately show ?thesis using e by simp
  qed
qed

lemma div_loop_result:
  "d \<noteq> 0 \<Longrightarrow> distinct (map fst es) \<Longrightarrow>
   div_loop es d res =
     Inr (\<lambda>q. case map_of es q of Some x \<Rightarrow> Some (go_quo x d) | None \<Rightarrow> res q)"
proof (induction es arbitrary: res)
  case Nil
  then show ?case by simp
next
  case (Cons e es)
  obtain k x where e: "e = (k, x)" by (cases e)
  have "k \<notin> fst ` set es" using Cons.prems e by auto
  then have none: "map_of es k = None" by (simp add: map_of_eq_None_iff)
  have "div_loop (e # es) d res = div_loop es d (res(k \<mapsto> go_quo x d))"
    using Cons.prems by (simp add: e)
  also have "\<dots> = Inr (\<lambda>q. case map_of es q of Some x \<Rightarrow> Some (go_quo x d)
                                | None \<Rightarrow> (res(k \<mapsto> go_quo x d)) q)"
    using Cons.prems by (intro Cons.IH) auto
  also have "(\<lambda>q. case map_of es q of Some x \<Rightarrow> Some (go_quo x d)
                                | None \<Rightarrow> (res(k \<mapsto> go_quo x d)) q) =
             (\<lambda>q. case map_of (e # es) q of Some x \<Rightarrow> Some (go_quo x d) | None \<Rightarrow> res q)"
    using none by (auto simp: e fun_eq_iff split: option.splits)
  finally show ?case .
qed

lemma Gcd_pos_int:
  fixes A :: "int set"
  assumes "x \<in> A" "0 < x"
  shows "0 < Gcd A"
proof -
  have "Gcd A \<noteq> 0" using assms by (auto simp: Gcd_0_iff)
  moreover have "0 \<le> Gcd A" by simp
  ultimately show ?thesis by linarith
qed

lemma normalizeQueueCfg_pos:
  assumes ro1: "range_order ks1 W" and ro2: "range_order ks2 W"
    and ne: "dom W \<noteq> {}" and pos: "\<forall>x\<in>ran W. 0 < x"
  shows "normalizeQueueCfg ks1 ks2 W = Inr (\<lambda>q. map_option (\<lambda>x. x div Gcd (ran W)) (W q))"
proof -
  define xs where "xs = map snd (range_entries ks1 W)"
  have set_xs: "set xs = ran W" unfolding xs_def using ro1 by (rule range_entries_values)
  have "ks1 \<noteq> []" using ro1 ne by (metis empty_set range_order_def)
  then have "xs \<noteq> []" using ro1 by (simp add: xs_def range_order_def range_entries_map)
  moreover have "\<forall>x\<in>set xs. 0 < x" using pos set_xs by simp
  ultimately have g: "gcd_ints xs = Inr (Gcd (ran W))"
    using gcd_ints_Gcd[of xs] set_xs by simp
  obtain x0 where x0: "x0 \<in> ran W" using ne by (auto simp: ran_def dom_def)
  have dpos: "0 < Gcd (ran W)"
    using x0 pos by (auto intro: Gcd_pos_int)
  have quo: "\<And>x. x \<in> ran W \<Longrightarrow> go_quo x (Gcd (ran W)) = x div Gcd (ran W)"
    using pos dpos by (auto simp: go_quo_def signed_divide_int_def sgn_if)
  have "div_loop (range_entries ks2 W) (Gcd (ran W)) Map.empty =
        Inr (\<lambda>q. case W q of Some x \<Rightarrow> Some (go_quo x (Gcd (ran W))) | None \<Rightarrow> None)"
  proof -
    have "distinct (map fst (range_entries ks2 W))"
      using ro2 by (simp add: range_entries_keys) (simp add: range_order_def)
    moreover have "Gcd (ran W) \<noteq> 0" using dpos by (rule less_imp_neq[symmetric])
    ultimately show ?thesis
      using div_loop_result[of "Gcd (ran W)" "range_entries ks2 W" Map.empty]
      by (simp add: range_entries_map_of[OF ro2])
  qed
  also have "(\<lambda>q. case W q of Some x \<Rightarrow> Some (go_quo x (Gcd (ran W))) | None \<Rightarrow> None) =
             (\<lambda>q. map_option (\<lambda>x. x div Gcd (ran W)) (W q))"
    using quo by (auto simp: fun_eq_iff ran_def split: option.splits)
  finally show ?thesis using g by (simp add: normalizeQueueCfg_def xs_def)
qed

lemma ran_map_option: "ran (\<lambda>q. map_option f (W q)) = f ` ran W"
  by (auto simp: ran_def image_iff) 

lemma dom_map_option: "dom (\<lambda>q. map_option f (W q)) = dom W"
  by (auto simp: dom_def)

lemma Gcd_div_Gcd:
  fixes A :: "int set"
  assumes "0 < Gcd A"
  shows "Gcd ((\<lambda>x. x div Gcd A) ` A) = 1"
proof -
  let ?g = "Gcd A"
  let ?B = "(\<lambda>x. x div ?g) ` A"
  have "\<And>x. x \<in> A \<Longrightarrow> ?g * (x div ?g) = x" by (simp add: Gcd_dvd)
  then have "(*) ?g ` ?B = A" by (force simp: image_iff)
  then have "?g = Gcd ((*) ?g ` ?B)" by simp
  also have "\<dots> = normalize (?g * Gcd ?B)" by (rule Gcd_mult)
  also have "\<dots> = ?g * Gcd ?B" using assms by (simp add: abs_mult)
  finally have "?g * 1 = ?g * Gcd ?B" by simp
  then show ?thesis using assms by (metis less_irrefl mult_cancel_left)
qed

lemma div_Gcd_pos:
  fixes A :: "int set"
  assumes "x \<in> A" "0 < x"
  shows "0 < x div Gcd A"
proof -
  have g: "0 < Gcd A" using assms by (rule Gcd_pos_int)
  have "Gcd A dvd x" using assms(1) by (rule Gcd_dvd)
  then obtain k where k: "x = Gcd A * k" by (auto simp: dvd_def)
  then have "0 < k" using g assms(2) by (simp add: zero_less_mult_iff)
  moreover have "x div Gcd A = k"
    using k g by (metis nonzero_mult_div_cancel_left less_irrefl)
  ultimately show ?thesis by simp
qed

lemma normalizeQueueCfg_positive:
  fixes W :: "'k \<rightharpoonup> int"
  assumes pos: "\<forall>x\<in>ran W. 0 < x"
  shows "\<forall>x\<in>ran (\<lambda>q. map_option (\<lambda>x. x div Gcd (ran W)) (W q)). 0 < x"
proof
  fix y
  assume "y \<in> ran (\<lambda>q. map_option (\<lambda>x. x div Gcd (ran W)) (W q))"
  then obtain x where x: "x \<in> ran W" "y = x div Gcd (ran W)"
    by (auto simp: ran_map_option)
  then have "0 < x" using pos by simp
  then show "0 < y" using x div_Gcd_pos[of x "ran W"] by simp
qed

text \<open>
  Claim C5. For a non-empty map \<open>W\<close> of positive weights, whatever the orders in which
  the range loops visit it, \<open>normalizeQueueCfg\<close> returns the map that sends every queue
  \<open>q\<close> to \<open>W q\<close> divided by the greatest common divisor of all weights of \<open>W\<close>; the
  greatest common divisor of the normalised weights is 1; and normalising the result
  again returns it unchanged, so a processor built from \<open>W\<close> and one built from \<open>W\<close>
  divided by its gcd hold the same queue configuration.
\<close>

theorem normalizeQueueCfg_divides_by_gcd:
  assumes ro1: "range_order ks1 W" and ro2: "range_order ks2 W"
    and ro3: "range_order ks3 W" and ro4: "range_order ks4 W"
    and ne: "dom W \<noteq> {}" and pos: "\<forall>x\<in>ran W. 0 < x"
  shows "\<exists>N. normalizeQueueCfg ks1 ks2 W = Inr N
            \<and> N = (\<lambda>q. map_option (\<lambda>x. x div Gcd (ran W)) (W q))
            \<and> Gcd (ran N) = 1
            \<and> normalizeQueueCfg ks3 ks4 N = Inr N"
proof -
  define N where "N = (\<lambda>q. map_option (\<lambda>x. x div Gcd (ran W)) (W q))"
  have first: "normalizeQueueCfg ks1 ks2 W = Inr N"
    unfolding N_def using ro1 ro2 ne pos by (rule normalizeQueueCfg_pos)
  obtain x0 where x0: "x0 \<in> ran W" using ne by (auto simp: ran_def dom_def)
  have dpos: "0 < Gcd (ran W)" using x0 pos by (auto intro: Gcd_pos_int)
  have ranN: "ran N = (\<lambda>x. x div Gcd (ran W)) ` ran W"
    unfolding N_def by (rule ran_map_option)
  have one: "Gcd (ran N) = 1" unfolding ranN using dpos by (rule Gcd_div_Gcd)
  have domN: "dom N = dom W" unfolding N_def by (rule dom_map_option)
  have ro3': "range_order ks3 N" and ro4': "range_order ks4 N"
    using ro3 ro4 domN by (simp_all add: range_order_def)
  have neN: "dom N \<noteq> {}" using ne domN by simp
  have posN: "\<forall>x\<in>ran N. 0 < x"
    unfolding N_def using pos by (rule normalizeQueueCfg_positive)
  have "normalizeQueueCfg ks3 ks4 N = Inr (\<lambda>q. map_option (\<lambda>x. x div Gcd (ran N)) (N q))"
    using ro3' ro4' neN posN by (rule normalizeQueueCfg_pos)
  also have "(\<lambda>q. map_option (\<lambda>x. x div Gcd (ran N)) (N q)) = N"
    by (simp add: one fun_eq_iff option.map_ident)
  finally have "normalizeQueueCfg ks3 ks4 N = Inr N" .
  then show ?thesis using first one N_def by blast
qed

theorem normalizeQueueCfg_divides_by_gcd_witness:
  "normalizeQueueCfg [''critical'', ''low''] [''low'', ''critical'']
      [''critical'' \<mapsto> 6, ''low'' \<mapsto> 4] = Inr [''critical'' \<mapsto> 3, ''low'' \<mapsto> 2]
   \<and> Gcd (ran [''critical'' \<mapsto> 3 :: int, ''low'' \<mapsto> 2]) = 1
   \<and> normalizeQueueCfg [''low'', ''critical''] [''critical'', ''low'']
        [''critical'' \<mapsto> 3, ''low'' \<mapsto> 2] = Inr [''critical'' \<mapsto> 3, ''low'' \<mapsto> 2]"
proof -
  let ?W = "[''critical'' \<mapsto> 6 :: int, ''low'' \<mapsto> 4]"
  have ro: "range_order [''critical'', ''low''] ?W" "range_order [''low'', ''critical''] ?W"
    by (auto simp: range_order_def)
  have ne: "dom ?W \<noteq> {}" by simp
  have ran: "ran ?W = {6, 4}" by (simp add: ran_map_upd insert_commute)
  have pos: "\<forall>x\<in>ran ?W. 0 < x" unfolding ran by simp
  have "gcd (6::int) 4 = 2" by code_simp
  then have g: "Gcd (ran ?W) = 2" unfolding ran by simp
  have N: "(\<lambda>q. map_option (\<lambda>x. x div Gcd (ran ?W)) (?W q)) = [''critical'' \<mapsto> 3, ''low'' \<mapsto> 2]"
    unfolding g by (rule ext) simp
  from normalizeQueueCfg_divides_by_gcd[OF ro(1) ro(2) ro(2) ro(1) ne pos]
  obtain M where M: "normalizeQueueCfg [''critical'', ''low''] [''low'', ''critical''] ?W = Inr M"
      "M = (\<lambda>q. map_option (\<lambda>x. x div Gcd (ran ?W)) (?W q))" "Gcd (ran M) = 1"
      "normalizeQueueCfg [''low'', ''critical''] [''critical'', ''low''] M = Inr M"
    by blast
  have "M = [''critical'' \<mapsto> 3, ''low'' \<mapsto> 2]" unfolding M(2) by (rule N)
  then show ?thesis using M(1,3,4) by blast
qed

text \<open>
  Claim C10. \<open>gcd\<close> reads the first element of its argument without a check and panics
  with an index out of range on the empty list; so \<open>normalizeQueueCfg\<close>, and with it
  \<open>newProcessor\<close>, panics on the empty queue configuration. On every non-empty map of
  positive weights \<open>normalizeQueueCfg\<close> returns (the functions are total, the loop of
  \<open>fn\<close> by its termination proof) a map with the same queues and positive weights, which
  \<open>newProcessor\<close> stores when the concurrency is not negative.
\<close>

theorem normalizeQueueCfg_needs_entry:
  "gcd_ints [] = Inl IndexOutOfRange
   \<and> (range_order ks1 (Queues info) \<and> dom (Queues info) = {} \<longrightarrow>
        normalizeQueueCfg ks1 ks2 (Queues info) = Inl IndexOutOfRange
        \<and> newProcessor sort_Sort ks1 ks2 ks3 info fn eh = Inl IndexOutOfRange)
   \<and> (range_order ks1 (Queues info) \<and> range_order ks2 (Queues info)
        \<and> dom (Queues info) \<noteq> {} \<and> (\<forall>x\<in>ran (Queues info). 0 < x) \<longrightarrow>
        (\<exists>N. normalizeQueueCfg ks1 ks2 (Queues info) = Inr N
            \<and> dom N = dom (Queues info) \<and> (\<forall>x\<in>ran N. 0 < x)
            \<and> (0 \<le> Concurrency info \<longrightarrow>
                 (\<exists>p. newProcessor sort_Sort ks1 ks2 ks3 info fn eh = Inr p
                     \<and> queueConfig p = N))))"
proof (intro conjI impI)
  show "gcd_ints [] = Inl IndexOutOfRange" by (simp add: gcd_ints_def)
next
  assume a: "range_order ks1 (Queues info) \<and> dom (Queues info) = {}"
  then have "ks1 = []" by (metis range_order_def set_empty)
  then show n: "normalizeQueueCfg ks1 ks2 (Queues info) = Inl IndexOutOfRange"
    by (simp add: normalizeQueueCfg_def gcd_ints_def)
  then show "newProcessor sort_Sort ks1 ks2 ks3 info fn eh = Inl IndexOutOfRange"
    by (simp add: newProcessor_def)
next
  let ?W = "Queues info"
  let ?N = "\<lambda>q. map_option (\<lambda>x. x div Gcd (ran ?W)) (?W q)"
  assume a: "range_order ks1 ?W \<and> range_order ks2 ?W \<and> dom ?W \<noteq> {} \<and> (\<forall>x\<in>ran ?W. 0 < x)"
  then have n: "normalizeQueueCfg ks1 ks2 ?W = Inr ?N"
    by (intro normalizeQueueCfg_pos) auto
  have d: "dom ?N = dom ?W" by (rule dom_map_option)
  have p: "\<forall>x\<in>ran ?N. 0 < x" using a by (intro normalizeQueueCfg_positive) simp
  have c: "0 \<le> Concurrency info \<longrightarrow>
             (\<exists>p. newProcessor sort_Sort ks1 ks2 ks3 info fn eh = Inr p \<and> queueConfig p = ?N)"
    using n by (simp add: newProcessor_def Let_def)
  show "\<exists>N. normalizeQueueCfg ks1 ks2 ?W = Inr N \<and> dom N = dom ?W \<and> (\<forall>x\<in>ran N. 0 < x)
            \<and> (0 \<le> Concurrency info \<longrightarrow>
                 (\<exists>p. newProcessor sort_Sort ks1 ks2 ks3 info fn eh = Inr p \<and> queueConfig p = N))"
    using n d p c by blast
qed

theorem normalizeQueueCfg_needs_entry_witness:
  "normalizeQueueCfg [] [] Map.empty = Inl IndexOutOfRange
   \<and> newProcessor (\<lambda>less es. es) [] [] []
        \<lparr>Queues = Map.empty, StrictPriority = False, Concurrency = 10\<rparr>
        (\<lambda>n e (t :: unit Task). 0) False = Inl IndexOutOfRange
   \<and> (\<exists>N. normalizeQueueCfg [''default''] [''default''] [''default'' \<mapsto> 5] = Inr N
         \<and> dom N = {''default''} \<and> N ''default'' \<noteq> Some 0)"
proof -
  let ?i0 = "\<lparr>Queues = Map.empty, StrictPriority = False, Concurrency = 10\<rparr>"
  let ?i1 = "\<lparr>Queues = [''default'' \<mapsto> 5], StrictPriority = False, Concurrency = 10\<rparr>"
  have e: "range_order [] (Queues ?i0) \<and> dom (Queues ?i0) = {}"
    by (simp add: range_order_def)
  have r: "ran [''default'' \<mapsto> 5 :: int] = {5}" by (auto simp: ran_def)
  have h: "range_order [''default''] (Queues ?i1) \<and> range_order [''default''] (Queues ?i1)
        \<and> dom (Queues ?i1) \<noteq> {} \<and> (\<forall>x\<in>ran (Queues ?i1). 0 < x)"
    by (simp add: range_order_def r)
  from normalizeQueueCfg_needs_entry[of "[]" ?i0 "[]" "\<lambda>less es. es" "[]" "\<lambda>n e (t :: unit Task). 0" False] e
  have 1: "normalizeQueueCfg [] [] Map.empty = Inl IndexOutOfRange
     \<and> newProcessor (\<lambda>less es. es) [] [] [] ?i0 (\<lambda>n e (t :: unit Task). 0) False = Inl IndexOutOfRange"
    by simp
  from normalizeQueueCfg_needs_entry[of "[''default'']" ?i1 "[''default'']" "\<lambda>less es. es" "[]" "\<lambda>n e (t :: unit Task). 0" False] h
  obtain N where N: "normalizeQueueCfg [''default''] [''default''] [''default'' \<mapsto> 5] = Inr N"
      "dom N = {''default''}" "\<forall>x\<in>ran N. 0 < x"
    by auto
  have "N ''default'' \<noteq> Some 0" using N(3) by (auto simp: ran_def)
  then show ?thesis using 1 N by blast
qed

end
